theory Spec2Isabelle
  imports Complex_Main
begin

section \<open>Strings\<close>

text \<open>
  A JavaScript string is modelled as a \<open>string\<close>, one \<open>char\<close> per code unit. The category
  identifiers of the application are ASCII (\<open>ascii\<close> below), and on ASCII code units
  \<open>toUpperCase\<close> and \<open>toLowerCase\<close> act letter by letter: \<open>a\<close>..\<open>z\<close> (97..122) and
  \<open>A\<close>..\<open>Z\<close> (65..90) are exchanged, every other code unit is kept. The theorems about
  label formatting are stated for ASCII strings, where this is what the engine computes.
\<close>

definition ascii :: "string \<Rightarrow> bool" where
  "ascii s = list_all (\<lambda>c. (of_char c :: nat) < 128) s"

definition toUpperCase_char :: "char \<Rightarrow> char" where
  "toUpperCase_char c =
     (let n = (of_char c :: nat) in if 97 \<le> n \<and> n \<le> 122 then char_of (n - 32) else c)"

definition toLowerCase_char :: "char \<Rightarrow> char" where
  "toLowerCase_char c =
     (let n = (of_char c :: nat) in if 65 \<le> n \<and> n \<le> 90 then char_of (n + 32) else c)"

definition toUpperCase :: "string \<Rightarrow> string" where
  "toUpperCase s = map toUpperCase_char s"

definition toLowerCase :: "string \<Rightarrow> string" where
  "toLowerCase s = map toLowerCase_char s"

text \<open>\<open>s.charAt(i)\<close> is the one-unit string at index \<open>i\<close>, or the empty string out of range.\<close>

definition charAt :: "string \<Rightarrow> nat \<Rightarrow> string" where
  "charAt s i = take 1 (drop i s)"

text \<open>\<open>s.slice(i)\<close> for an index \<open>i \<ge> 0\<close>: the rest of the string from \<open>i\<close> on.\<close>

definition slice :: "string \<Rightarrow> nat \<Rightarrow> string" where
  "slice s i = drop i s"

text \<open>
  \<open>s.split(sep)\<close> for a one-unit separator: the pieces between the occurrences of the
  separator, so that the empty string gives one empty piece.
\<close>

fun split :: "char \<Rightarrow> string \<Rightarrow> string list" where
  "split sep [] = [[]]"
| "split sep (c # cs) =
     (if c = sep then [] # split sep cs
      else (case split sep cs of
              [] \<Rightarrow> [[c]]
            | w # ws \<Rightarrow> (c # w) # ws))"

text \<open>\<open>xs.join(sep)\<close> on an array of strings.\<close>

fun join :: "string \<Rightarrow> string list \<Rightarrow> string" where
  "join sep [] = []"
| "join sep [w] = w"
| "join sep (w # v # ws) = w @ sep @ join sep (v # ws)"

section \<open>Rows and their scores\<close>

record datatypeScore =
  ds_id :: string
  ds_score :: real

record target_ref =
  target_id :: string
  approvedSymbol :: string
  approvedName :: string

record AssociationRow =
  target :: target_ref
  score :: real
  datatypeScores :: "datatypeScore list"

section \<open>Label formatting\<close>

text \<open>The arrow function that \<open>formatLabel\<close> maps over the segments.\<close>

definition formatWord :: "string \<Rightarrow> string" where
  "formatWord word =
     (if toLowerCase word = ''rna'' then ''RNA''
      else toUpperCase (charAt word 0) @ slice word 1)"

definition formatLabel :: "string \<Rightarrow> string" where
  "formatLabel label = join '' '' (map formatWord (split CHR ''_'' label))"

section \<open>The normalized score vector\<close>

definition allDataTypes :: "string list" where
  "allDataTypes =
     [''literature'', ''rna_expression'', ''genetic_association'', ''somatic_mutation'',
      ''known_drug'', ''animal_model'', ''affected_pathway'']"

record chart_entry =
  d_name :: string
  d_value :: real

text \<open>
  \<open>Array.prototype.find\<close> returns the first element that satisfies the predicate, or
  \<open>undefined\<close>; an element found is an object, hence truthy, so the conditional selects its
  score exactly when an element was found.
\<close>

definition chartData :: "AssociationRow \<Rightarrow> chart_entry list" where
  "chartData row =
     map (\<lambda>type.
            let foundScore = find (\<lambda>score. ds_id score = type) (datatypeScores row)
            in \<lparr>d_name = formatLabel type,
                d_value = (case foundScore of Some s \<Rightarrow> ds_score s | None \<Rightarrow> 0)\<rparr>)
         allDataTypes"


definition example_row :: AssociationRow where
  "example_row =
     \<lparr>target = \<lparr>target_id = ''ENSG00000146648'', approvedSymbol = ''EGFR'',
                approvedName = ''epidermal growth factor receptor''\<rparr>,
      score = 0.9,
      datatypeScores = [\<lparr>ds_id = ''genetic_association'', ds_score = 0.8\<rparr>,
                        \<lparr>ds_id = ''literature'', ds_score = 0.2\<rparr>]\<rparr>"

section \<open>Label formatting, as the specification words it\<close>

text \<open>
  The specification describes the label of an identifier through its segments: the
  identifier is the underscore-join of its segments, none of which contains an underscore;
  the segment whose lowercase form is \<open>rna\<close> becomes \<open>RNA\<close>, every other segment has its
  first character capitalized. These definitions follow those words and are compared with
  \<open>formatLabel\<close> below.
\<close>

definition spec_capitalize :: "string \<Rightarrow> string" where
  "spec_capitalize w = (case w of [] \<Rightarrow> [] | c # cs \<Rightarrow> toUpperCase_char c # cs)"

definition spec_segment :: "string \<Rightarrow> string" where
  "spec_segment w = (if toLowerCase w = ''rna'' then ''RNA'' else spec_capitalize w)"

definition spec_segments :: "string \<Rightarrow> string list \<Rightarrow> bool" where
  "spec_segments label segs \<longleftrightarrow>
     segs \<noteq> [] \<and> list_all (\<lambda>w. CHR ''_'' \<notin> set w) segs \<and> join ''_'' segs = label"

section \<open>The row component\<close>

subsection \<open>State and event handlers\<close>

text \<open>
  \<open>Row\<close> keeps two pieces of state: \<open>open\<close> (\<open>useState(false)\<close>) and \<open>tabValue\<close>
  (\<open>useState(0)\<close>). The expand button calls \<open>setOpen(!open)\<close>; the tab control calls
  \<open>handleTabChange(event, newValue)\<close>, which calls \<open>setTabValue(newValue)\<close>, with the index
  of the tab that was clicked.
\<close>

record row_state =
  open_st :: bool
  tabValue :: nat

definition Row_initial :: row_state where
  "Row_initial = \<lparr>open_st = False, tabValue = 0\<rparr>"

datatype row_event = ToggleClick | TabChange nat

definition toggle :: "row_state \<Rightarrow> row_state" where
  "toggle s = s\<lparr>open_st := \<not> open_st s\<rparr>"

definition handleTabChange :: "nat \<Rightarrow> row_state \<Rightarrow> row_state" where
  "handleTabChange newValue s = s\<lparr>tabValue := newValue\<rparr>"

fun row_step :: "row_event \<Rightarrow> row_state \<Rightarrow> row_state" where
  "row_step ToggleClick s = toggle s"
| "row_step (TabChange newValue) s = handleTabChange newValue s"

subsection \<open>What a row renders\<close>

record chart_data =
  labels :: "string list"
  dataset_label :: string
  data :: "real list"

definition barChartData :: "AssociationRow \<Rightarrow> chart_data" where
  "barChartData row =
     \<lparr>labels = map d_name (chartData row),
      dataset_label = ''Association Score'',
      data = map d_value (chartData row)\<rparr>"

definition radarChartData :: "AssociationRow \<Rightarrow> chart_data" where
  "radarChartData row =
     \<lparr>labels = map d_name (chartData row),
      dataset_label = approvedSymbol (target row),
      data = map d_value (chartData row)\<rparr>"

datatype chart = Bar chart_data | Radar chart_data

text \<open>
  The charts sit inside \<open>Collapse in={open} unmountOnExit\<close>: while the row is closed its
  content is not mounted. When it is open the tab strip shows \<open>tabValue\<close>, the bar chart is
  rendered when \<open>tabValue === 0\<close> and the radar chart when \<open>tabValue === 1\<close>.
\<close>

datatype panel = Unmounted | Mounted nat "chart list"

definition Row_panel :: "AssociationRow \<Rightarrow> row_state \<Rightarrow> panel" where
  "Row_panel row s =
     (if open_st s
      then Mounted (tabValue s)
             ((if tabValue s = 0 then [Bar (barChartData row)] else []) @
              (if tabValue s = 1 then [Radar (radarChartData row)] else []))
      else Unmounted)"

text \<open>
  The first table row of the component: the toggle button shows \<open>-\<close> or \<open>+\<close>, the symbol
  links to the target page, the name follows. (The score cell, \<open>row.score.toFixed(3)\<close>, is
  number formatting and is left out.)
\<close>

record row_view =
  toggle_icon :: string
  link_href :: string
  link_text :: string
  name_cell :: string
  panel_cell :: panel

definition Row :: "AssociationRow \<Rightarrow> row_state \<Rightarrow> row_view" where
  "Row row s =
     \<lparr>toggle_icon = (if open_st s then ''-'' else ''+''),
      link_href = ''https://platform.opentargets.org/target/'' @ approvedName (target row),
      link_text = approvedSymbol (target row),
      name_cell = approvedName (target row),
      panel_cell = Row_panel row s\<rparr>"

subsection \<open>The resize effect\<close>

text \<open>
  \<open>useEffect(f, [open, tabValue])\<close>: React runs \<open>f\<close> after the component mounts and after
  every update in which \<open>open\<close> or \<open>tabValue\<close> changed, runs the cleanup that the previous
  run returned before it runs \<open>f\<close> again, and runs the last cleanup when the component
  unmounts. Each run of \<open>f\<close> creates a new function \<open>handleResize\<close> that closes over the
  \<open>open\<close> and \<open>tabValue\<close> of its render, and registers it on the window; the cleanup
  removes that same function. A function is identified by \<open>h_id\<close>, drawn from a counter of
  the window, as two closures are never the same object.
\<close>

record handler =
  h_id :: nat
  h_open :: bool
  h_tabValue :: nat

record window =
  listeners :: "handler list"
  next_id :: nat

text \<open>
  \<open>addEventListener\<close> ignores a listener that is already registered;
  \<open>removeEventListener\<close> removes the registered listener, if there is one.
\<close>

definition addEventListener :: "handler \<Rightarrow> window \<Rightarrow> window" where
  "addEventListener h w =
     (if h \<in> set (listeners w) then w else w\<lparr>listeners := listeners w @ [h]\<rparr>)"

definition removeEventListener :: "handler \<Rightarrow> window \<Rightarrow> window" where
  "removeEventListener h w = w\<lparr>listeners := remove1 h (listeners w)\<rparr>"

datatype resize_call = BarResize | RadarResize

text \<open>
  What a call of \<open>handleResize\<close> does; \<open>barRef\<close> and \<open>radarRef\<close> say whether
  \<open>barChartRef.current\<close> and \<open>radarChartRef.current\<close> are set when it is called.
\<close>

definition handleResize :: "handler \<Rightarrow> bool \<Rightarrow> bool \<Rightarrow> resize_call option" where
  "handleResize h barRef radarRef =
     (if h_open h
      then (if h_tabValue h = 0 \<and> barRef then Some BarResize
            else if h_tabValue h = 1 \<and> radarRef then Some RadarResize
            else None)
      else None)"

text \<open>
  The body of the effect. It also schedules one call of \<open>handleResize\<close> with
  \<open>setTimeout\<close>, which does not touch the listeners. The result is the function that the
  returned cleanup will remove, and the window.
\<close>

definition resize_effect :: "row_state \<Rightarrow> window \<Rightarrow> handler \<times> window" where
  "resize_effect s w =
     (let h = \<lparr>h_id = next_id w, h_open = open_st s, h_tabValue = tabValue s\<rparr>
      in (h, addEventListener h (w\<lparr>next_id := Suc (next_id w)\<rparr>)))"

record row_instance =
  inst_row :: AssociationRow
  inst_state :: row_state
  inst_cleanup :: handler

definition mount_Row :: "AssociationRow \<Rightarrow> window \<Rightarrow> row_instance \<times> window" where
  "mount_Row row w =
     (let (h, w') = resize_effect Row_initial w
      in (\<lparr>inst_row = row, inst_state = Row_initial, inst_cleanup = h\<rparr>, w'))"

definition update_Row :: "row_state \<Rightarrow> row_instance \<times> window \<Rightarrow> row_instance \<times> window" where
  "update_Row s' iw =
     (let (inst, w) = iw; s = inst_state inst
      in if open_st s' = open_st s \<and> tabValue s' = tabValue s
         then (inst\<lparr>inst_state := s'\<rparr>, w)
         else (let (h, w') = resize_effect s' (removeEventListener (inst_cleanup inst) w)
               in (inst\<lparr>inst_state := s', inst_cleanup := h\<rparr>, w')))"

definition dispatch :: "row_event \<Rightarrow> row_instance \<times> window \<Rightarrow> row_instance \<times> window" where
  "dispatch ev iw = update_Row (row_step ev (inst_state (fst iw))) iw"

definition unmount_Row :: "row_instance \<times> window \<Rightarrow> window" where
  "unmount_Row iw = removeEventListener (inst_cleanup (fst iw)) (snd iw)"

text \<open>Function identities already handed out are below the counter.\<close>

definition window_ok :: "window \<Rightarrow> bool" where
  "window_ok w = list_all (\<lambda>h. h_id h < next_id w) (listeners w)"

text \<open>
  The invariant of a mounted row: the window holds the listeners \<open>base\<close> that were there
  before the row mounted, followed by the one listener of the row, which is the function
  its pending cleanup removes and which has captured the current state.
\<close>

definition listener_inv :: "AssociationRow \<Rightarrow> handler list \<Rightarrow> row_instance \<times> window \<Rightarrow> bool" where
  "listener_inv row base iw \<longleftrightarrow>
     listeners (snd iw) = base @ [inst_cleanup (fst iw)]
     \<and> inst_cleanup (fst iw) \<notin> set base
     \<and> window_ok (snd iw)
     \<and> h_open (inst_cleanup (fst iw)) = open_st (inst_state (fst iw))
     \<and> h_tabValue (inst_cleanup (fst iw)) = tabValue (inst_state (fst iw))
     \<and> inst_row (fst iw) = row"


section \<open>The application component\<close>

subsection \<open>The response\<close>

text \<open>
  The value that \<open>response.json()\<close> resolves with. \<open>JRows\<close> is a JSON array whose elements
  are rows of the shape the query asks for; the model has no other arrays (on the path
  that \<open>fetchData\<close> reads, any other array behaves like an object without the key read).
  \<open>JObj\<close> is a parsed object: its keys are distinct.
\<close>

datatype json =
    JNull
  | JBool bool
  | JNum real
  | JStr string
  | JObj "(string \<times> json) list"
  | JRows "AssociationRow list"

text \<open>
  What the source takes from the JavaScript engine without defining it: the message of
  the \<open>TypeError\<close> thrown when the property \<open>data\<close> of \<open>null\<close> is read, and the outcome
  of \<open>s > 0\<close> for a string \<open>s\<close> (the string converted to a number).
\<close>

record engine =
  null_read_message :: string
  string_gt_zero :: "string \<Rightarrow> bool"

text \<open>
  The body of a response either fails to parse, and \<open>response.json()\<close> rejects with a
  \<open>SyntaxError\<close> of the given message, or parses to a value. \<open>response.ok\<close> is true for the
  statuses 200 to 299. \<open>fetch\<close> itself rejects, with an error of the given message, when the
  request cannot be made.
\<close>

datatype body = BadJson string | Json json

record response =
  status :: nat
  body :: body

definition ok :: "response \<Rightarrow> bool" where
  "ok r = (200 \<le> status r \<and> status r \<le> 299)"

datatype fetch_outcome = Rejected string | Resolved response

text \<open>
  Reading one of the properties \<open>data\<close>, \<open>disease\<close>, \<open>associatedTargets\<close>, \<open>rows\<close> of a value
  that is not \<open>null\<close>: an object gives the value under the key or \<open>undefined\<close> (\<open>None\<close>), and
  a boolean, a number, a string or an array has no property of these names.
\<close>

definition get_prop :: "json \<Rightarrow> string \<Rightarrow> json option" where
  "get_prop v k = (case v of JObj kvs \<Rightarrow> map_of kvs k | _ \<Rightarrow> None)"

text \<open>
  \<open>result.data\<close>, read without \<open>?.\<close>: on \<open>null\<close> the read throws (\<open>Inl\<close> the message of the
  error).
\<close>

definition read_data :: "engine \<Rightarrow> json \<Rightarrow> string + json option" where
  "read_data e result =
     (case result of JNull \<Rightarrow> Inl (null_read_message e) | _ \<Rightarrow> Inr (get_prop result ''data''))"

text \<open>\<open>x?.k\<close>: \<open>undefined\<close> when \<open>x\<close> is \<open>undefined\<close> or \<open>null\<close>, the property otherwise.\<close>

definition optional_chain :: "json option \<Rightarrow> string \<Rightarrow> json option" where
  "optional_chain x k =
     (case x of None \<Rightarrow> None | Some JNull \<Rightarrow> None | Some v \<Rightarrow> get_prop v k)"

fun truthy :: "json \<Rightarrow> bool" where
  "truthy JNull = False"
| "truthy (JBool b) = b"
| "truthy (JNum n) = (n \<noteq> 0)"
| "truthy (JStr s) = (s \<noteq> [])"
| "truthy (JObj kvs) = True"
| "truthy (JRows rows) = True"

subsection \<open>State and the fetch\<close>

text \<open>
  \<open>useState([])\<close>, \<open>useState(true)\<close>, \<open>useState(null)\<close>. The error is \<open>null\<close> (\<open>None\<close>) or the
  message of the error caught.
\<close>

record app_state =
  targets :: json
  isLoading :: bool
  error :: "string option"

definition App_initial :: app_state where
  "App_initial = \<lparr>targets = JRows [], isLoading = True, error = None\<rparr>"

text \<open>
  The \<open>try\<close> block of \<open>fetchData\<close>: \<open>Inl\<close> is the message of the error thrown, \<open>Inr\<close> the
  state after \<open>setTargets\<close>.
\<close>

definition fetchData_try :: "engine \<Rightarrow> fetch_outcome \<Rightarrow> app_state \<Rightarrow> string + app_state" where
  "fetchData_try e outcome s =
     (case outcome of
        Rejected m \<Rightarrow> Inl m
      | Resolved resp \<Rightarrow>
          if \<not> ok resp then Inl ''Network response was not ok''
          else (case body resp of
                  BadJson m \<Rightarrow> Inl m
                | Json result \<Rightarrow>
                    (case read_data e result of
                       Inl m \<Rightarrow> Inl m
                     | Inr d \<Rightarrow>
                         (case optional_chain
                                 (optional_chain (optional_chain d ''disease'')
                                    ''associatedTargets'') ''rows'' of
                            None \<Rightarrow> Inl ''Data structure from API is not as expected.''
                          | Some rows \<Rightarrow>
                              if truthy rows then Inr (s\<lparr>targets := rows\<rparr>)
                              else Inl ''Data structure from API is not as expected.''))))"

definition fetchData :: "engine \<Rightarrow> fetch_outcome \<Rightarrow> app_state \<Rightarrow> app_state" where
  "fetchData e outcome s =
     (let s1 = s\<lparr>isLoading := True, error := None\<rparr>;
          s2 = (case fetchData_try e outcome s1 of
                  Inl message \<Rightarrow> s1\<lparr>error := Some message\<rparr>
                | Inr s' \<Rightarrow> s')
      in s2\<lparr>isLoading := False\<rparr>)"

subsection \<open>What the application renders\<close>

datatype body_row = DataRow string AssociationRow | PlaceholderRow

datatype view = LoadingView | ErrorView string | TableView "body_row list"

text \<open>
  \<open>v > 0\<close> for a JSON value: \<open>null\<close> counts as 0, \<open>true\<close> as 1, an object as \<open>NaN\<close>, an
  array of objects as the number of its string form, which is 0 for the empty array and
  \<open>NaN\<close> otherwise.
\<close>

fun gt_zero :: "engine \<Rightarrow> json \<Rightarrow> bool" where
  "gt_zero e JNull = False"
| "gt_zero e (JBool b) = b"
| "gt_zero e (JNum n) = (n > 0)"
| "gt_zero e (JStr s) = string_gt_zero e s"
| "gt_zero e (JObj kvs) = False"
| "gt_zero e (JRows rows) = False"

text \<open>
  The table body, \<open>targets.length > 0 ? targets.map(row => <Row key={row.target.id} ... />)
  : <placeholder>\<close>. For an array this is the rows or the placeholder. A value that is not an
  array has no \<open>map\<close>: where its \<open>length\<close> is greater than 0 the call throws a \<open>TypeError\<close>
  and nothing is rendered (\<open>None\<close>), and where it has no \<open>length\<close> the placeholder is shown;
  reading \<open>length\<close> of \<open>null\<close> throws as well.
\<close>

definition TableBody :: "engine \<Rightarrow> json \<Rightarrow> body_row list option" where
  "TableBody e ts =
     (case ts of
        JRows rows \<Rightarrow>
          Some (if length rows > 0 then map (\<lambda>row. DataRow (target_id (target row)) row) rows
                else [PlaceholderRow])
      | JNull \<Rightarrow> None
      | JStr s \<Rightarrow> if length s > 0 then None else Some [PlaceholderRow]
      | JObj kvs \<Rightarrow>
          (case map_of kvs ''length'' of
             None \<Rightarrow> Some [PlaceholderRow]
           | Some v \<Rightarrow> if gt_zero e v then None else Some [PlaceholderRow])
      | _ \<Rightarrow> Some [PlaceholderRow])"

text \<open>
  The component: the loading view, the error view, or the table. \<open>if (error)\<close> is false for
  \<open>null\<close> and for the empty string.
\<close>

definition App :: "engine \<Rightarrow> app_state \<Rightarrow> view option" where
  "App e s =
     (if isLoading s then Some LoadingView
      else (case error s of
              Some m \<Rightarrow>
                if m \<noteq> [] then Some (ErrorView (''Error fetching data: '' @ m))
                else map_option TableView (TableBody e (targets s))
            | None \<Rightarrow> map_option TableView (TableBody e (targets s))))"

text \<open>The rows of data in a view, and its placeholder rows.\<close>

fun data_rows :: "view \<Rightarrow> AssociationRow list" where
  "data_rows (TableView rows) = concat (map (\<lambda>r. case r of DataRow k row \<Rightarrow> [row] | PlaceholderRow \<Rightarrow> []) rows)"
| "data_rows LoadingView = []"
| "data_rows (ErrorView m) = []"

fun placeholder_rows :: "view \<Rightarrow> nat" where
  "placeholder_rows (TableView rows) = length (filter (\<lambda>r. r = PlaceholderRow) rows)"
| "placeholder_rows LoadingView = 0"
| "placeholder_rows (ErrorView m) = 0"

subsection \<open>The rows path, as the specification words it\<close>

text \<open>
  The specification speaks of a parsed response that has, or lacks, the nested path to the
  rows: the value reached by following the keys \<open>data\<close>, \<open>disease\<close>, \<open>associatedTargets\<close>,
  \<open>rows\<close> through objects.
\<close>

fun path_lookup :: "json \<Rightarrow> string list \<Rightarrow> json option" where
  "path_lookup v [] = Some v"
| "path_lookup (JObj kvs) (k # ks) =
     (case map_of kvs k of None \<Rightarrow> None | Some v \<Rightarrow> path_lookup v ks)"
| "path_lookup v (k # ks) = None"

definition lacks_rows_path :: "json \<Rightarrow> bool" where
  "lacks_rows_path result \<longleftrightarrow>
     path_lookup result [''data'', ''disease'', ''associatedTargets'', ''rows''] = None"

definition example_engine :: engine where
  "example_engine =
     \<lparr>null_read_message = ''Cannot read properties of null (reading 'data')'',
      string_gt_zero = (\<lambda>s. False)\<rparr>"

section \<open>Properties of label formatting\<close>

subsection \<open>Characters, splitting and joining\<close>

lemma of_char_toUpperCase_char:
  "(of_char (toUpperCase_char c) :: nat) =
     (if 97 \<le> (of_char c :: nat) \<and> (of_char c :: nat) \<le> 122 then of_char c - 32 else of_char c)"
  by (auto simp add: toUpperCase_char_def Let_def)

lemma of_char_toLowerCase_char:
  "(of_char (toLowerCase_char c) :: nat) =
     (if 65 \<le> (of_char c :: nat) \<and> (of_char c :: nat) \<le> 90 then of_char c + 32 else of_char c)"
  by (auto simp add: toLowerCase_char_def Let_def)

lemma char_eq_via_code: "c = d \<longleftrightarrow> (of_char c :: nat) = of_char d"
  by simp

lemma toUpperCase_char_idem: "toUpperCase_char (toUpperCase_char c) = toUpperCase_char c"
  by (subst char_eq_via_code) (auto simp add: of_char_toUpperCase_char)

lemma toLowerCase_upper_char: "toLowerCase_char (toUpperCase_char c) = toLowerCase_char c"
  by (subst char_eq_via_code) (auto simp add: of_char_toUpperCase_char of_char_toLowerCase_char)

lemma toUpperCase_char_underscore: "toUpperCase_char c = CHR ''_'' \<longleftrightarrow> c = CHR ''_''"
  by (subst (1 2) char_eq_via_code) (auto simp add: of_char_toUpperCase_char)

lemma split_not_Nil: "split sep s \<noteq> []"
  by (induction s) (auto split: list.splits)

lemma split_no_sep: "w \<in> set (split sep s) \<Longrightarrow> sep \<notin> set w"
  by (induction s arbitrary: w) (auto split: list.splits if_splits)

lemma split_single: "sep \<notin> set s \<Longrightarrow> split sep s = [s]"
  by (induction s) auto

lemma join_Cons: "join sep (w # ws) = (if ws = [] then w else w @ sep @ join sep ws)"
  by (cases ws) auto

lemma join_split: "join [sep] (split sep s) = s"
proof (induction s)
  case Nil
  show ?case by simp
next
  case (Cons c cs)
  obtain w ws where sp: "split sep cs = w # ws"
    using split_not_Nil [of sep cs] by (cases "split sep cs") auto
  with Cons show ?case
    by (auto simp: join_Cons split: if_splits)
qed

lemma split_append_sep:
  "sep \<notin> set w \<Longrightarrow> split sep (w @ sep # s) = w # split sep s"
  by (induction w) auto

lemma split_join:
  "ws \<noteq> [] \<Longrightarrow> \<forall>w\<in>set ws. sep \<notin> set w \<Longrightarrow> split sep (join [sep] ws) = ws"
proof (induction ws)
  case Nil
  then show ?case by simp
next
  case (Cons w ws)
  show ?case
  proof (cases "ws = []")
    case True
    with Cons.prems show ?thesis by (simp add: split_single)
  next
    case False
    with Cons show ?thesis
      by (simp add: join_Cons split_append_sep)
  qed
qed

subsection \<open>The source and the specification agree\<close>

lemma capitalize_eq: "toUpperCase (charAt w 0) @ slice w 1 = spec_capitalize w"
  by (cases w) (simp_all add: toUpperCase_def charAt_def slice_def spec_capitalize_def)

lemma formatWord_spec: "formatWord = spec_segment"
  by (rule ext) (simp only: formatWord_def spec_segment_def capitalize_eq)

lemma spec_segments_split: "spec_segments label (split CHR ''_'' label)"
  by (simp add: spec_segments_def split_not_Nil join_split list_all_iff split_no_sep)

lemma spec_segments_unique: "spec_segments label segs \<Longrightarrow> split CHR ''_'' label = segs"
  using split_join [of segs "CHR ''_''"] by (auto simp: spec_segments_def list_all_iff)

text \<open>
  Claim C2. For every identifier of ASCII characters, \<open>formatLabel\<close> splits it on the
  underscore into its segments (\<open>split\<close> yields the one non-empty list of underscore-free
  strings whose underscore-join is the identifier), maps each segment whose lowercase form
  is \<open>rna\<close> to \<open>RNA\<close>, capitalizes the first character of every other segment, and joins
  the results with single spaces.
\<close>

theorem formatLabel_segments:
  assumes "ascii label"
  shows "spec_segments label (split CHR ''_'' label)
       \<and> (\<forall>segs. spec_segments label segs \<longrightarrow>
             formatLabel label = join '' '' (map spec_segment segs))"
proof -
  have "formatLabel label = join '' '' (map spec_segment segs)"
    if "spec_segments label segs" for segs
    using spec_segments_unique [OF that] formatWord_spec
    by (simp add: formatLabel_def)
  then show ?thesis using spec_segments_split by blast
qed

theorem formatLabel_segments_witness:
  "ascii ''rna_expression''
   \<and> spec_segments ''rna_expression'' [''rna'', ''expression'']
   \<and> formatLabel ''rna_expression'' = ''RNA Expression''"
proof -
  have a: "ascii ''rna_expression''" by (simp add: ascii_def)
  have s: "spec_segments ''rna_expression'' [''rna'', ''expression'']"
    by (simp add: spec_segments_def)
  have "join '' '' (map spec_segment [''rna'', ''expression'']) = ''RNA Expression''"
    by code_simp
  with formatLabel_segments [OF a] a s show ?thesis by metis
qed


subsection \<open>Formatting a label twice\<close>

lemma spec_capitalize_no_underscore:
  "CHR ''_'' \<notin> set w \<Longrightarrow> CHR ''_'' \<notin> set (spec_capitalize w)"
proof (cases w)
  case Nil
  then show ?thesis by (simp add: spec_capitalize_def)
next
  case (Cons c cs)
  assume "CHR ''_'' \<notin> set w"
  with Cons have c: "c \<noteq> CHR ''_''" and cs: "CHR ''_'' \<notin> set cs" by auto
  from c have "toUpperCase_char c \<noteq> CHR ''_''"
    by (simp only: toUpperCase_char_underscore not_False_eq_True)
  with cs Cons show ?thesis
    by (auto simp: spec_capitalize_def)
qed

lemma spec_segment_no_underscore:
  "CHR ''_'' \<notin> set w \<Longrightarrow> CHR ''_'' \<notin> set (spec_segment w)"
  by (simp add: spec_segment_def spec_capitalize_no_underscore)

lemma set_join: "set (join sep ws) \<subseteq> set sep \<union> \<Union> (set ` set ws)"
  by (induction sep ws rule: join.induct) auto

lemma formatLabel_no_underscore: "CHR ''_'' \<notin> set (formatLabel label)"
proof -
  have "CHR ''_'' \<notin> set w" if "w \<in> set (map formatWord (split CHR ''_'' label))" for w
    using that split_no_sep [of _ "CHR ''_''" label] spec_segment_no_underscore
    by (auto simp: formatWord_spec)
  then show ?thesis
    using set_join [of "'' ''" "map formatWord (split CHR ''_'' label)"]
    unfolding formatLabel_def by auto
qed

lemma toLowerCase_capitalize: "toLowerCase (spec_capitalize w) = toLowerCase w"
  by (cases w) (simp_all add: spec_capitalize_def toLowerCase_def toLowerCase_upper_char)

lemma spec_capitalize_idem: "spec_capitalize (spec_capitalize w) = spec_capitalize w"
  by (cases w) (simp_all add: spec_capitalize_def toUpperCase_char_idem)

lemma spec_segment_idem: "spec_segment (spec_segment w) = spec_segment w"
proof (cases "toLowerCase w = ''rna''")
  case True
  have "spec_segment ''RNA'' = ''RNA''" by code_simp
  with True show ?thesis by (simp add: spec_segment_def)
next
  case False
  then show ?thesis
    by (simp add: spec_segment_def toLowerCase_capitalize spec_capitalize_idem)
qed

lemma head_spec_segment:
  "spec_capitalize (spec_segment w @ rest) = spec_segment w @ rest" if "spec_segment w \<noteq> []"
proof (cases "toLowerCase w = ''rna''")
  case True
  have "toUpperCase_char CHR ''R'' = CHR ''R''" by code_simp
  with True show ?thesis by (simp add: spec_segment_def spec_capitalize_def)
next
  case False
  with that show ?thesis
    by (cases w) (simp_all add: spec_segment_def spec_capitalize_def toUpperCase_char_idem)
qed

lemma space_toLowerCase: "CHR '' '' \<in> set s \<Longrightarrow> toLowerCase s \<noteq> ''rna''"
proof
  assume "CHR '' '' \<in> set s" and "toLowerCase s = ''rna''"
  then have "toLowerCase_char CHR '' '' \<in> set ''rna''"
    unfolding toLowerCase_def by (metis imageI set_map)
  moreover have "toLowerCase_char CHR '' '' = CHR '' ''" by code_simp
  ultimately show False by simp
qed

lemma spec_segment_join2:
  "spec_segment (spec_segment w @ '' '' @ rest) = spec_segment w @ '' '' @ rest"
proof -
  let ?out = "spec_segment w @ '' '' @ rest"
  have "toLowerCase ?out \<noteq> ''rna''" by (rule space_toLowerCase) simp
  moreover have "spec_capitalize ?out = ?out"
  proof (cases "spec_segment w = []")
    case True
    have "toUpperCase_char CHR '' '' = CHR '' ''" by code_simp
    with True show ?thesis by (simp add: spec_capitalize_def)
  next
    case False
    then show ?thesis by (rule head_spec_segment)
  qed
  ultimately show ?thesis by (simp add: spec_segment_def)
qed

lemma spec_segment_join:
  "ws \<noteq> [] \<Longrightarrow> spec_segment (join '' '' (map spec_segment ws)) = join '' '' (map spec_segment ws)"
proof (cases ws)
  case Nil
  assume "ws \<noteq> []"
  with Nil show ?thesis by simp
next
  case (Cons w vs)
  show ?thesis
  proof (cases vs)
    case Nil
    with Cons show ?thesis by (simp add: spec_segment_idem)
  next
    case (Cons v us)
    with \<open>ws = w # vs\<close> show ?thesis
      using spec_segment_join2 [of w "join '' '' (map spec_segment (v # us))"] by simp
  qed
qed

lemma formatLabel_idem: "formatLabel (formatLabel label) = formatLabel label"
proof -
  let ?ws = "split CHR ''_'' label"
  have out: "formatLabel label = join '' '' (map spec_segment ?ws)"
    by (simp add: formatLabel_def formatWord_spec cong: map_cong)
  have "split CHR ''_'' (formatLabel label) = [formatLabel label]"
    by (rule split_single) (rule formatLabel_no_underscore)
  then have "formatLabel (formatLabel label) = spec_segment (formatLabel label)"
    by (simp add: formatLabel_def [of "formatLabel label"] formatWord_spec)
  also have "\<dots> = formatLabel label"
    unfolding out by (rule spec_segment_join) (rule split_not_Nil)
  finally show ?thesis .
qed



lemma toLowerCase_char_r: "toLowerCase_char c = CHR ''r'' \<longleftrightarrow> c = CHR ''r'' \<or> c = CHR ''R''"
  unfolding char_eq_via_code [of "toLowerCase_char c"] char_eq_via_code [of c]
  by (auto simp add: of_char_toLowerCase_char)

lemma toLowerCase_char_n: "toLowerCase_char c = CHR ''n'' \<longleftrightarrow> c = CHR ''n'' \<or> c = CHR ''N''"
  unfolding char_eq_via_code [of "toLowerCase_char c"] char_eq_via_code [of c]
  by (auto simp add: of_char_toLowerCase_char)

lemma toLowerCase_char_a: "toLowerCase_char c = CHR ''a'' \<longleftrightarrow> c = CHR ''a'' \<or> c = CHR ''A''"
  unfolding char_eq_via_code [of "toLowerCase_char c"] char_eq_via_code [of c]
  by (auto simp add: of_char_toLowerCase_char)

lemma toLowerCase_rna:
  "toLowerCase w = ''rna'' \<longleftrightarrow>
     w \<in> set [''rna'', ''rnA'', ''rNa'', ''rNA'', ''Rna'', ''RnA'', ''RNa'', ''RNA'']"
proof
  assume "toLowerCase w = ''rna''"
  then obtain a b c where w: "w = [a, b, c]" and "toLowerCase_char a = CHR ''r''"
     and "toLowerCase_char b = CHR ''n''" and "toLowerCase_char c = CHR ''a''"
    by (auto simp: toLowerCase_def map_eq_Cons_conv)
  then have "(a = CHR ''r'' \<or> a = CHR ''R'') \<and> (b = CHR ''n'' \<or> b = CHR ''N'')
      \<and> (c = CHR ''a'' \<or> c = CHR ''A'')"
    by (simp only: toLowerCase_char_r toLowerCase_char_n toLowerCase_char_a)
  with w show "w \<in> set [''rna'', ''rnA'', ''rNa'', ''rNA'', ''Rna'', ''RnA'', ''RNa'', ''RNA'']"
    by auto
next
  assume "w \<in> set [''rna'', ''rnA'', ''rNa'', ''rNA'', ''Rna'', ''RnA'', ''RNa'', ''RNA'']"
  moreover have "list_all (\<lambda>w. toLowerCase w = ''rna'')
    [''rna'', ''rnA'', ''rNa'', ''rNA'', ''Rna'', ''RnA'', ''RNa'', ''RNA'']"
    by code_simp
  ultimately show "toLowerCase w = ''rna''"
    unfolding list_all_iff by blast
qed

lemma formatLabel_rna: "toLowerCase w = ''rna'' \<Longrightarrow> formatLabel w = ''RNA''"
proof -
  assume l: "toLowerCase w = ''rna''"
  have "CHR ''_'' \<notin> set w"
  proof
    assume "CHR ''_'' \<in> set w"
    then have "toLowerCase_char CHR ''_'' \<in> set (toLowerCase w)"
      by (simp add: toLowerCase_def)
    moreover have "toLowerCase_char CHR ''_'' = CHR ''_''" by code_simp
    ultimately show False using l by simp
  qed
  then have "split CHR ''_'' w = [w]" by (rule split_single)
  with l show ?thesis by (simp add: formatLabel_def formatWord_def)
qed

lemma split_set: "w \<in> set (split sep s) \<Longrightarrow> set w \<subseteq> set s"
proof (induction s arbitrary: w)
  case Nil
  then show ?case by simp
next
  case (Cons c cs)
  obtain v vs where sp: "split sep cs = v # vs"
    using split_not_Nil [of sep cs] by (cases "split sep cs") auto
  have ih: "set u \<subseteq> set cs" if "u = v \<or> u \<in> set vs" for u
    using Cons.IH [of u] that sp by auto
  show ?case
  proof (cases "c = sep")
    case True
    with Cons.prems sp have "w = [] \<or> w = v \<or> w \<in> set vs" by auto
    with ih [of w] show ?thesis by auto
  next
    case False
    with Cons.prems sp have "w = c # v \<or> w \<in> set vs" by auto
    with ih [of w] ih [of v] show ?thesis by auto
  qed
qed

lemma ascii_iff: "ascii s \<longleftrightarrow> (\<forall>c\<in>set s. (of_char c :: nat) < 128)"
  by (simp add: ascii_def list_all_iff)

lemma ascii_spec_capitalize: "ascii w \<Longrightarrow> ascii (spec_capitalize w)"
  by (cases w) (auto simp: ascii_def spec_capitalize_def of_char_toUpperCase_char)

lemma ascii_spec_segment: "ascii w \<Longrightarrow> ascii (spec_segment w)"
proof -
  have "ascii ''RNA''" by (simp add: ascii_def)
  then show "ascii w \<Longrightarrow> ascii (spec_segment w)"
    by (simp add: spec_segment_def ascii_spec_capitalize)
qed

lemma ascii_formatLabel: "ascii label \<Longrightarrow> ascii (formatLabel label)"
proof -
  assume a: "ascii label"
  have "ascii w" if "w \<in> set (map formatWord (split CHR ''_'' label))" for w
  proof -
    from that obtain v where v: "v \<in> set (split CHR ''_'' label)" and w: "w = spec_segment v"
      by (auto simp: formatWord_spec)
    from v a have "ascii v" using split_set [of v] by (auto simp: ascii_iff)
    with w show ?thesis by (simp add: ascii_spec_segment)
  qed
  moreover have "ascii '' ''" by (simp add: ascii_def)
  ultimately show ?thesis
    using set_join [of "'' ''" "map formatWord (split CHR ''_'' label)"]
    unfolding formatLabel_def ascii_iff by blast
qed

text \<open>
  Claim C8. \<open>formatLabel\<close> is a total function (it has a value on every string, and no
  branch of the source raises). On every identifier of ASCII characters its result is
  again ASCII and formatting the result again changes nothing; the segments whose
  lowercase form is \<open>rna\<close> are exactly the eight spellings of \<open>rna\<close> in upper and lower
  case, and each of them is formatted to \<open>RNA\<close>.
\<close>

theorem formatLabel_idempotent:
  assumes "ascii label"
  shows "ascii (formatLabel label)
       \<and> formatLabel (formatLabel label) = formatLabel label
       \<and> (\<forall>w. toLowerCase w = ''rna'' \<longleftrightarrow>
                w \<in> set [''rna'', ''rnA'', ''rNa'', ''rNA'', ''Rna'', ''RnA'', ''RNa'', ''RNA''])
       \<and> (\<forall>w. toLowerCase w = ''rna'' \<longrightarrow> formatWord w = ''RNA'' \<and> formatLabel w = ''RNA'')"
proof (intro conjI allI impI)
  show "ascii (formatLabel label)" using assms by (rule ascii_formatLabel)
  show "formatLabel (formatLabel label) = formatLabel label" by (rule formatLabel_idem)
next
  fix w
  show "toLowerCase w = ''rna'' \<longleftrightarrow>
          w \<in> set [''rna'', ''rnA'', ''rNa'', ''rNA'', ''Rna'', ''RnA'', ''RNa'', ''RNA'']"
    by (rule toLowerCase_rna)
next
  fix w
  assume l: "toLowerCase w = ''rna''"
  then show "formatWord w = ''RNA''" by (simp add: formatWord_def)
  from l show "formatLabel w = ''RNA''" by (rule formatLabel_rna)
qed

theorem formatLabel_idempotent_witness:
  "ascii ''rNa_expression''
   \<and> formatLabel ''rNa_expression'' = ''RNA Expression''
   \<and> formatLabel (formatLabel ''rNa_expression'') = ''RNA Expression''
   \<and> toLowerCase ''RnA'' = ''rna'' \<and> formatLabel ''RnA'' = ''RNA''"
proof -
  have a: "ascii ''rNa_expression''" by (simp add: ascii_def)
  have f: "formatLabel ''rNa_expression'' = ''RNA Expression''" by code_simp
  have l: "toLowerCase ''RnA'' = ''rna''" by code_simp
  from formatLabel_idempotent [OF a] a f l show ?thesis by simp
qed


section \<open>Properties of the normalized score vector\<close>

lemma find_distinct_id:
  "distinct (map ds_id xs) \<Longrightarrow> s \<in> set xs \<Longrightarrow> find (\<lambda>x. ds_id x = ds_id s) xs = Some s"
  by (induction xs) (auto simp: image_iff)

lemma find_first:
  "\<forall>p\<in>set pre. ds_id p \<noteq> ds_id s \<Longrightarrow> find (\<lambda>x. ds_id x = ds_id s) (pre @ s # post) = Some s"
  by (induction pre) auto

lemma chartData_value:
  "i < length allDataTypes \<Longrightarrow>
     d_value (chartData row ! i) =
       (case find (\<lambda>x. ds_id x = allDataTypes ! i) (datatypeScores row) of
          Some s \<Rightarrow> ds_score s | None \<Rightarrow> 0)"
  by (simp add: chartData_def Let_def)

lemma length_allDataTypes: "length allDataTypes = 7"
  by (simp add: allDataTypes_def)

lemma chartData_names:
  "map d_name (chartData row) =
     [''Literature'', ''RNA Expression'', ''Genetic Association'', ''Somatic Mutation'',
      ''Known Drug'', ''Animal Model'', ''Affected Pathway'']"
proof -
  have "map formatLabel allDataTypes =
     [''Literature'', ''RNA Expression'', ''Genetic Association'', ''Somatic Mutation'',
      ''Known Drug'', ''Animal Model'', ''Affected Pathway'']"
    by code_simp
  moreover have "map d_name (chartData row) = map formatLabel allDataTypes"
    by (simp add: chartData_def Let_def comp_def)
  ultimately show ?thesis by simp
qed

text \<open>
  Claim C1. For every row whose scores name each category at most once, \<open>chartData\<close> has
  exactly seven entries, labelled in the canonical order of \<open>allDataTypes\<close>; the entry of a
  category that the row scores carries that score and the entry of a category that the
  row does not score carries zero. For the scores \<open>genetic_association: 0.8\<close> and
  \<open>literature: 0.2\<close> the seven values are \<open>0.2, 0, 0.8, 0, 0, 0, 0\<close>.
\<close>

theorem chartData_normalized:
  "(\<forall>row. distinct (map ds_id (datatypeScores row)) \<longrightarrow>
       length (chartData row) = 7
     \<and> map d_name (chartData row) =
         [''Literature'', ''RNA Expression'', ''Genetic Association'', ''Somatic Mutation'',
          ''Known Drug'', ''Animal Model'', ''Affected Pathway'']
     \<and> (\<forall>i<7. \<forall>s\<in>set (datatypeScores row).
           ds_id s = allDataTypes ! i \<longrightarrow> d_value (chartData row ! i) = ds_score s)
     \<and> (\<forall>i<7. allDataTypes ! i \<notin> ds_id ` set (datatypeScores row) \<longrightarrow>
           d_value (chartData row ! i) = 0))
   \<and> allDataTypes =
        [''literature'', ''rna_expression'', ''genetic_association'', ''somatic_mutation'',
         ''known_drug'', ''animal_model'', ''affected_pathway'']
   \<and> (\<forall>t sc. map d_value (chartData \<lparr>target = t, score = sc, datatypeScores =
          [\<lparr>ds_id = ''genetic_association'', ds_score = 0.8\<rparr>,
           \<lparr>ds_id = ''literature'', ds_score = 0.2\<rparr>]\<rparr>) = [0.2, 0, 0.8, 0, 0, 0, 0])"
proof -
  have len: "length (chartData row) = 7" for row
    by (simp add: chartData_def allDataTypes_def)
  have present: "d_value (chartData row ! i) = ds_score s"
    if d: "distinct (map ds_id (datatypeScores row))" and i: "i < 7"
      and s: "s \<in> set (datatypeScores row)" and e: "ds_id s = allDataTypes ! i" for row i s
    using find_distinct_id [OF d s] i e
    by (simp add: chartData_value length_allDataTypes)
  have absent: "d_value (chartData row ! i) = 0"
    if i: "i < 7" and n: "allDataTypes ! i \<notin> ds_id ` set (datatypeScores row)" for row i
  proof -
    from n have "\<not> (\<exists>x. x \<in> set (datatypeScores row) \<and> ds_id x = allDataTypes ! i)"
      by force
    then have "find (\<lambda>x. ds_id x = allDataTypes ! i) (datatypeScores row) = None"
      by (simp add: find_None_iff)
    with i show "d_value (chartData row ! i) = 0"
      by (simp add: chartData_value length_allDataTypes)
  qed
  have example: "map d_value (chartData \<lparr>target = t, score = sc, datatypeScores =
          [\<lparr>ds_id = ''genetic_association'', ds_score = 0.8\<rparr>,
           \<lparr>ds_id = ''literature'', ds_score = 0.2\<rparr>]\<rparr>) = [0.2, 0, 0.8, 0, 0, 0, 0]" for t sc
    by (simp add: chartData_def allDataTypes_def Let_def)
  show ?thesis
    apply (intro conjI allI impI ballI)
         apply (rule len)
        apply (rule chartData_names)
       apply (erule (3) present)
      apply (erule (1) absent)
     apply (rule allDataTypes_def)
    apply (rule example)
    done
qed


theorem chartData_normalized_witness:
  "distinct (map ds_id (datatypeScores example_row))
   \<and> length (chartData example_row) = 7
   \<and> d_value (chartData example_row ! 2) = 0.8
   \<and> d_value (chartData example_row ! 1) = 0"
proof -
  have d: "distinct (map ds_id (datatypeScores example_row))"
    by (simp add: example_row_def)
  note n = chartData_normalized [THEN conjunct1, THEN spec, THEN mp, OF d]
  have s: "\<lparr>ds_id = ''genetic_association'', ds_score = 0.8\<rparr> \<in> set (datatypeScores example_row)"
    by (simp add: example_row_def)
  have "d_value (chartData example_row ! 2) = ds_score \<lparr>ds_id = ''genetic_association'', ds_score = 0.8\<rparr>"
    using n [THEN conjunct2, THEN conjunct2, THEN conjunct1, THEN spec, of 2] s
    by (simp add: allDataTypes_def)
  moreover have "allDataTypes ! 1 \<notin> ds_id ` set (datatypeScores example_row)"
    by (simp add: example_row_def allDataTypes_def)
  then have "d_value (chartData example_row ! 1) = 0"
    using n [THEN conjunct2, THEN conjunct2, THEN conjunct2, THEN spec, of 1] by simp
  ultimately show ?thesis using d n by simp
qed

text \<open>
  Claim C9. When the scores of a row name one of the seven categories more than once, the
  entry of that category carries the score of the first occurrence: whatever follows the
  first occurrence in the list is ignored.
\<close>

theorem chartData_first_occurrence:
  assumes "datatypeScores row = pre @ s # post"
    and "i < 7"
    and "ds_id s = allDataTypes ! i"
    and "\<forall>p\<in>set pre. ds_id p \<noteq> ds_id s"
  shows "d_value (chartData row ! i) = ds_score s"
proof -
  from assms(4) have "find (\<lambda>x. ds_id x = ds_id s) (pre @ s # post) = Some s"
    by (rule find_first)
  with assms(1-3) show ?thesis
    by (simp add: chartData_value length_allDataTypes)
qed

theorem chartData_first_occurrence_witness:
  "d_value (chartData \<lparr>target = target example_row, score = 0.5, datatypeScores =
       [\<lparr>ds_id = ''known_drug'', ds_score = 0.4\<rparr>,
        \<lparr>ds_id = ''literature'', ds_score = 0.2\<rparr>,
        \<lparr>ds_id = ''literature'', ds_score = 0.7\<rparr>]\<rparr> ! 0) = 0.2"
  using chartData_first_occurrence
    [of "\<lparr>target = target example_row, score = 0.5, datatypeScores =
       [\<lparr>ds_id = ''known_drug'', ds_score = 0.4\<rparr>,
        \<lparr>ds_id = ''literature'', ds_score = 0.2\<rparr>,
        \<lparr>ds_id = ''literature'', ds_score = 0.7\<rparr>]\<rparr>"
        "[\<lparr>ds_id = ''known_drug'', ds_score = 0.4\<rparr>]"
        "\<lparr>ds_id = ''literature'', ds_score = 0.2\<rparr>"
        "[\<lparr>ds_id = ''literature'', ds_score = 0.7\<rparr>]" 0]
  by (simp add: allDataTypes_def)

section \<open>The resize listener of a row\<close>

lemma window_ok_iff: "window_ok w \<longleftrightarrow> (\<forall>h\<in>set (listeners w). h_id h < next_id w)"
  by (simp add: window_ok_def list_all_iff)

lemma resize_effect_fresh:
  assumes "window_ok w"
  shows "fst (resize_effect s w) = \<lparr>h_id = next_id w, h_open = open_st s, h_tabValue = tabValue s\<rparr>"
    and "listeners (snd (resize_effect s w)) = listeners w @ [fst (resize_effect s w)]"
    and "fst (resize_effect s w) \<notin> set (listeners w)"
    and "window_ok (snd (resize_effect s w))"
proof -
  let ?h = "\<lparr>h_id = next_id w, h_open = open_st s, h_tabValue = tabValue s\<rparr>"
  show f: "fst (resize_effect s w) = ?h" by (simp add: resize_effect_def Let_def)
  from assms have n: "?h \<notin> set (listeners w)" by (auto simp: window_ok_iff)
  with f show "fst (resize_effect s w) \<notin> set (listeners w)" by simp
  from n show l: "listeners (snd (resize_effect s w)) = listeners w @ [fst (resize_effect s w)]"
    by (simp add: resize_effect_def Let_def addEventListener_def)
  from assms n show "window_ok (snd (resize_effect s w))"
    by (auto simp: resize_effect_def Let_def addEventListener_def window_ok_iff less_Suc_eq)
qed

lemma listener_inv_mount:
  assumes "window_ok w"
  shows "listener_inv row (listeners w) (mount_Row row w)"
  using resize_effect_fresh [OF assms, of Row_initial]
  by (simp add: listener_inv_def mount_Row_def split_beta)

lemma window_ok_remove:
  "window_ok w \<Longrightarrow> window_ok (removeEventListener h w)"
  by (auto simp: window_ok_iff removeEventListener_def dest: notin_set_remove1)

lemma listener_inv_update:
  assumes "listener_inv row base iw"
  shows "listener_inv row base (update_Row s' iw)"
proof (cases "open_st s' = open_st (inst_state (fst iw)) \<and> tabValue s' = tabValue (inst_state (fst iw))")
  case True
  with assms show ?thesis
    by (simp add: listener_inv_def update_Row_def split_beta Let_def)
next
  case False
  let ?w1 = "removeEventListener (inst_cleanup (fst iw)) (snd iw)"
  from assms have l1: "listeners ?w1 = base"
    by (simp add: listener_inv_def removeEventListener_def remove1_append)
  from assms have ok1: "window_ok ?w1"
    by (simp add: listener_inv_def window_ok_remove)
  from False have u: "update_Row s' iw =
      (fst iw\<lparr>inst_state := s', inst_cleanup := fst (resize_effect s' ?w1)\<rparr>,
       snd (resize_effect s' ?w1))"
    by (auto simp: update_Row_def split_beta Let_def)
  from resize_effect_fresh [OF ok1, of s'] l1 assms show ?thesis
    unfolding u by (simp add: listener_inv_def)
qed

lemma listener_inv_dispatch:
  "listener_inv row base iw \<Longrightarrow> listener_inv row base (dispatch ev iw)"
  unfolding dispatch_def by (rule listener_inv_update)

lemma listener_inv_fold:
  "listener_inv row base iw \<Longrightarrow> listener_inv row base (fold dispatch evs iw)"
  by (induction evs arbitrary: iw) (simp_all add: listener_inv_dispatch)

lemma listener_inv_unmount:
  "listener_inv row base iw \<Longrightarrow> listeners (unmount_Row iw) = base"
  by (simp add: listener_inv_def unmount_Row_def removeEventListener_def remove1_append)

lemma handleResize_closed: "\<not> h_open h \<Longrightarrow> handleResize h b r = None"
  by (simp add: handleResize_def)

text \<open>
  Claim C4 says that a collapsed row never holds a registered resize listener. It does:
  the effect runs when the row mounts, collapsed, and registers the listener; after the
  row has been expanded and collapsed again it is collapsed with one listener registered.
\<close>

theorem Row_listener_when_collapsed:
  "\<not> open_st (inst_state (fst (mount_Row example_row \<lparr>listeners = [], next_id = 0\<rparr>)))
   \<and> listeners (snd (mount_Row example_row \<lparr>listeners = [], next_id = 0\<rparr>))
       = [\<lparr>h_id = 0, h_open = False, h_tabValue = 0\<rparr>]
   \<and> \<not> open_st (inst_state (fst (fold dispatch [ToggleClick, ToggleClick]
            (mount_Row example_row \<lparr>listeners = [], next_id = 0\<rparr>))))
   \<and> listeners (snd (fold dispatch [ToggleClick, ToggleClick]
            (mount_Row example_row \<lparr>listeners = [], next_id = 0\<rparr>)))
       = [\<lparr>h_id = 2, h_open = False, h_tabValue = 0\<rparr>]"
  by (simp add: mount_Row_def resize_effect_def Let_def addEventListener_def Row_initial_def
      dispatch_def update_Row_def toggle_def removeEventListener_def)

text \<open>
  Claim C4, amended. From the moment a row mounts until it unmounts, whatever sequence of
  toggle and tab events it receives and whether it is collapsed or expanded, the window
  holds exactly one resize listener of the row beyond the listeners that were there
  before: the function that the pending cleanup removes, which has captured the current
  \<open>open\<close> and \<open>tabValue\<close>. Listeners do not accumulate over expand and collapse cycles, the
  listener of a collapsed row does nothing when it is called, and unmounting the row
  removes its listener and leaves the window as it was.
\<close>

theorem Row_one_listener:
  assumes "window_ok w"
  shows "listeners (snd (fold dispatch evs (mount_Row row w)))
           = listeners w @ [inst_cleanup (fst (fold dispatch evs (mount_Row row w)))]
       \<and> h_open (inst_cleanup (fst (fold dispatch evs (mount_Row row w))))
           = open_st (inst_state (fst (fold dispatch evs (mount_Row row w))))
       \<and> h_tabValue (inst_cleanup (fst (fold dispatch evs (mount_Row row w))))
           = tabValue (inst_state (fst (fold dispatch evs (mount_Row row w))))
       \<and> (\<not> open_st (inst_state (fst (fold dispatch evs (mount_Row row w)))) \<longrightarrow>
            handleResize (inst_cleanup (fst (fold dispatch evs (mount_Row row w)))) barRef radarRef = None)
       \<and> window_ok (snd (fold dispatch evs (mount_Row row w)))
       \<and> listeners (unmount_Row (fold dispatch evs (mount_Row row w))) = listeners w"
proof -
  let ?iw = "fold dispatch evs (mount_Row row w)"
  have inv: "listener_inv row (listeners w) ?iw"
    by (rule listener_inv_fold) (rule listener_inv_mount [OF assms])
  then have "listeners (unmount_Row ?iw) = listeners w" by (rule listener_inv_unmount)
  with inv show ?thesis
    by (simp add: listener_inv_def handleResize_closed)
qed

theorem Row_one_listener_witness:
  "window_ok \<lparr>listeners = [], next_id = 0\<rparr>
   \<and> \<not> open_st (inst_state (fst (fold dispatch [ToggleClick, TabChange 1, ToggleClick]
        (mount_Row example_row \<lparr>listeners = [], next_id = 0\<rparr>))))
   \<and> length (listeners (snd (fold dispatch [ToggleClick, TabChange 1, ToggleClick]
        (mount_Row example_row \<lparr>listeners = [], next_id = 0\<rparr>)))) = 1
   \<and> handleResize (inst_cleanup (fst (fold dispatch [ToggleClick, TabChange 1, ToggleClick]
        (mount_Row example_row \<lparr>listeners = [], next_id = 0\<rparr>)))) True True = None
   \<and> listeners (unmount_Row (fold dispatch [ToggleClick, TabChange 1, ToggleClick]
        (mount_Row example_row \<lparr>listeners = [], next_id = 0\<rparr>))) = []"
proof -
  have ok: "window_ok \<lparr>listeners = [], next_id = 0\<rparr>" by (simp add: window_ok_def)
  have c: "\<not> open_st (inst_state (fst (fold dispatch [ToggleClick, TabChange 1, ToggleClick]
        (mount_Row example_row \<lparr>listeners = [], next_id = 0\<rparr>))))"
    by (simp add: mount_Row_def resize_effect_def Let_def addEventListener_def Row_initial_def
      dispatch_def update_Row_def toggle_def handleTabChange_def removeEventListener_def)
  from Row_one_listener [OF ok, of "[ToggleClick, TabChange 1, ToggleClick]" example_row True True]
  show ?thesis using ok c by simp
qed

section \<open>The view state of a row\<close>

lemma fold_toggle_tabValue:
  "list_all (\<lambda>ev. ev = ToggleClick) evs \<Longrightarrow> tabValue (fold row_step evs s) = tabValue s"
  by (induction evs arbitrary: s) (simp_all add: toggle_def)

text \<open>
  Claim C5. A row starts collapsed. The toggle flips \<open>open\<close> and leaves \<open>tabValue\<close> alone;
  the first expansion shows the bar chart; in an expanded row the tab control shows the
  radar chart for tab 1 and the bar chart for tab 0; collapsing unmounts the panel, and
  since no sequence of toggles changes \<open>tabValue\<close>, expanding again shows the tab that was
  last used.
\<close>

theorem Row_view_states:
  "Row_panel row Row_initial = Unmounted
   \<and> (\<forall>s. open_st (row_step ToggleClick s) = (\<not> open_st s)
          \<and> tabValue (row_step ToggleClick s) = tabValue s)
   \<and> Row_panel row (row_step ToggleClick Row_initial) = Mounted 0 [Bar (barChartData row)]
   \<and> (\<forall>s. open_st s \<longrightarrow>
          Row_panel row (row_step (TabChange 1) s) = Mounted 1 [Radar (radarChartData row)]
        \<and> Row_panel row (row_step (TabChange 0) s) = Mounted 0 [Bar (barChartData row)])
   \<and> (\<forall>s. open_st s \<longrightarrow>
          Row_panel row (row_step ToggleClick s) = Unmounted
        \<and> row_step ToggleClick (row_step ToggleClick s) = s)
   \<and> (\<forall>s evs. list_all (\<lambda>ev. ev = ToggleClick) evs \<longrightarrow>
          tabValue (fold row_step evs s) = tabValue s)"
proof -
  have 1: "Row_panel row Row_initial = Unmounted"
    by (simp add: Row_panel_def Row_initial_def)
  have 2: "open_st (row_step ToggleClick s) = (\<not> open_st s)
          \<and> tabValue (row_step ToggleClick s) = tabValue s" for s
    by (simp add: toggle_def)
  have 3: "Row_panel row (row_step ToggleClick Row_initial) = Mounted 0 [Bar (barChartData row)]"
    by (simp add: Row_panel_def Row_initial_def toggle_def)
  have 4: "Row_panel row (row_step (TabChange 1) s) = Mounted 1 [Radar (radarChartData row)]
        \<and> Row_panel row (row_step (TabChange 0) s) = Mounted 0 [Bar (barChartData row)]"
    if "open_st s" for s
    using that by (simp add: Row_panel_def handleTabChange_def)
  have 5: "Row_panel row (row_step ToggleClick s) = Unmounted
        \<and> row_step ToggleClick (row_step ToggleClick s) = s" if "open_st s" for s
    using that by (simp add: Row_panel_def toggle_def)
  show ?thesis
    apply (intro conjI allI impI)
            apply (rule 1)
           apply (rule 2 [THEN conjunct1])
          apply (rule 2 [THEN conjunct2])
         apply (rule 3)
        apply (erule 4 [THEN conjunct1])
       apply (erule 4 [THEN conjunct2])
      apply (erule 5 [THEN conjunct1])
     apply (erule 5 [THEN conjunct2])
    apply (erule fold_toggle_tabValue)
    done
qed

theorem Row_view_states_witness:
  "open_st \<lparr>open_st = True, tabValue = 0\<rparr>
   \<and> Row_panel example_row (row_step (TabChange 1) \<lparr>open_st = True, tabValue = 0\<rparr>)
       = Mounted 1 [Radar (radarChartData example_row)]
   \<and> Row_panel example_row (row_step ToggleClick \<lparr>open_st = True, tabValue = 1\<rparr>) = Unmounted
   \<and> list_all (\<lambda>ev. ev = ToggleClick) [ToggleClick, ToggleClick]
   \<and> Row_panel example_row
        (fold row_step [ToggleClick, ToggleClick] \<lparr>open_st = True, tabValue = 1\<rparr>)
       = Mounted 1 [Radar (radarChartData example_row)]"
proof -
  note t = Row_view_states [of example_row]
  have o: "open_st \<lparr>open_st = True, tabValue = 0\<rparr>" by simp
  have o1: "open_st \<lparr>open_st = True, tabValue = 1\<rparr>" by simp
  have l: "list_all (\<lambda>ev. ev = ToggleClick) [ToggleClick, ToggleClick]" by simp
  from t have a: "Row_panel example_row (row_step (TabChange 1) \<lparr>open_st = True, tabValue = 0\<rparr>)
       = Mounted 1 [Radar (radarChartData example_row)]"
    using o by blast
  from t have b: "Row_panel example_row (row_step ToggleClick \<lparr>open_st = True, tabValue = 1\<rparr>) = Unmounted"
    using o1 by blast
  have c: "Row_panel example_row
        (fold row_step [ToggleClick, ToggleClick] \<lparr>open_st = True, tabValue = 1\<rparr>)
       = Mounted 1 [Radar (radarChartData example_row)]"
    by (simp add: Row_panel_def toggle_def)
  from o a b l c show ?thesis by simp
qed

section \<open>The vector and the view state\<close>

lemma Row_panel_charts:
  "case Row_panel row s of
     Unmounted \<Rightarrow> True
   | Mounted t cs \<Rightarrow>
       list_all (\<lambda>c. case c of
                   Bar d \<Rightarrow> labels d = map d_name (chartData row) \<and> data d = map d_value (chartData row)
                 | Radar d \<Rightarrow> labels d = map d_name (chartData row) \<and> data d = map d_value (chartData row)) cs"
  by (simp add: Row_panel_def barChartData_def radarChartData_def)

lemma inst_row_update: "inst_row (fst (update_Row s' iw)) = inst_row (fst iw)"
  by (simp add: update_Row_def split_beta Let_def)

lemma inst_row_fold: "inst_row (fst (fold dispatch evs iw)) = inst_row (fst iw)"
  by (induction evs arbitrary: iw) (simp_all add: dispatch_def inst_row_update)

lemma inst_row_mount: "inst_row (fst (mount_Row row w)) = row"
  by (simp add: mount_Row_def split_beta)

text \<open>
  Claim C6. No sequence of toggle and tab events changes the row that a mounted component
  renders, so its normalized score vector is the one it had when it mounted, with seven
  entries; whichever chart the row shows, bar or radar, is drawn from the labels and the
  values of that vector; and the vector is the same for any row with the same scores.
\<close>

theorem chartData_frame:
  "inst_row (fst (fold dispatch evs (mount_Row row w))) = row
   \<and> chartData (inst_row (fst (fold dispatch evs (mount_Row row w)))) = chartData row
   \<and> length (chartData (inst_row (fst (fold dispatch evs (mount_Row row w))))) = 7
   \<and> (case Row_panel (inst_row (fst (fold dispatch evs (mount_Row row w))))
              (inst_state (fst (fold dispatch evs (mount_Row row w)))) of
        Unmounted \<Rightarrow> True
      | Mounted t cs \<Rightarrow>
          list_all (\<lambda>c. case c of
                      Bar d \<Rightarrow> labels d = map d_name (chartData row)
                               \<and> data d = map d_value (chartData row)
                    | Radar d \<Rightarrow> labels d = map d_name (chartData row)
                               \<and> data d = map d_value (chartData row)) cs)
   \<and> (\<forall>row'. datatypeScores row' = datatypeScores row \<longrightarrow> chartData row' = chartData row)"
proof -
  have r: "inst_row (fst (fold dispatch evs (mount_Row row w))) = row"
    by (simp add: inst_row_fold inst_row_mount)
  have l: "length (chartData row) = 7" by (simp add: chartData_def allDataTypes_def)
  have same: "chartData row' = chartData row"
    if "datatypeScores row' = datatypeScores row" for row'
    using that by (simp add: chartData_def)
  note p = Row_panel_charts [of row "inst_state (fst (fold dispatch evs (mount_Row row w)))"]
  show ?thesis
    unfolding r
    apply (intro conjI allI impI)
        apply (rule refl)
       apply (rule refl)
      apply (rule l)
     apply (rule p)
    apply (erule same)
    done
qed

theorem chartData_frame_witness:
  "map d_value (chartData (inst_row (fst (fold dispatch [ToggleClick, TabChange 1]
        (mount_Row example_row \<lparr>listeners = [], next_id = 0\<rparr>)))))
     = [0.2, 0, 0.8, 0, 0, 0, 0]
   \<and> map d_value (chartData example_row) = [0.2, 0, 0.8, 0, 0, 0, 0]
   \<and> datatypeScores (example_row\<lparr>score := 0.1\<rparr>) = datatypeScores example_row
   \<and> chartData (example_row\<lparr>score := 0.1\<rparr>) = chartData example_row"
proof -
  note f = chartData_frame [of "[ToggleClick, TabChange 1]" example_row
      "\<lparr>listeners = [], next_id = 0\<rparr>"]
  have v: "map d_value (chartData example_row) = [0.2, 0, 0.8, 0, 0, 0, 0]"
    by (simp add: chartData_def allDataTypes_def example_row_def)
  have d: "datatypeScores (example_row\<lparr>score := 0.1\<rparr>) = datatypeScores example_row"
    by simp
  note same = f [THEN conjunct2, THEN conjunct2, THEN conjunct2, THEN conjunct2, THEN spec,
      THEN mp, OF d]
  note kept = f [THEN conjunct2, THEN conjunct1]
  from v show ?thesis
    unfolding kept by (intro conjI d same)
qed

section \<open>Properties of the fetch\<close>

lemma optional_chain_path:
  "optional_chain x k = (case x of None \<Rightarrow> None | Some v \<Rightarrow> path_lookup v [k])"
  by (cases x; simp add: optional_chain_def get_prop_def split: json.splits option.splits)

lemma get_prop_path: "get_prop v k = path_lookup v [k]"
  by (cases v) (simp_all add: get_prop_def split: option.splits)

lemma path_lookup_Cons:
  "path_lookup v (k # ks) = (case path_lookup v [k] of None \<Rightarrow> None | Some u \<Rightarrow> path_lookup u ks)"
  by (cases v) (simp_all split: option.splits)

lemma rows_chain_path:
  "optional_chain (optional_chain (optional_chain (get_prop result a) b) c) d
     = path_lookup result [a, b, c, d]"
  by (simp add: optional_chain_path get_prop_path path_lookup_Cons [of result a "[b, c, d]"]
        path_lookup_Cons [of _ b "[c, d]"] path_lookup_Cons [of _ c "[d]"]
      split: option.splits)

lemma fetchData_try_not_ok:
  "\<not> ok resp \<Longrightarrow> fetchData_try e (Resolved resp) s = Inl ''Network response was not ok''"
  by (simp add: fetchData_try_def)

lemma fetchData_try_BadJson:
  "ok resp \<Longrightarrow> body resp = BadJson m \<Longrightarrow> fetchData_try e (Resolved resp) s = Inl m"
  by (simp add: fetchData_try_def)

lemma fetchData_try_null:
  "ok resp \<Longrightarrow> body resp = Json JNull \<Longrightarrow>
     fetchData_try e (Resolved resp) s = Inl (null_read_message e)"
  by (simp add: fetchData_try_def read_data_def)

lemma fetchData_try_Json:
  assumes "ok resp" and "body resp = Json result" and "result \<noteq> JNull"
  shows "fetchData_try e (Resolved resp) s =
     (case path_lookup result [''data'', ''disease'', ''associatedTargets'', ''rows''] of
        None \<Rightarrow> Inl ''Data structure from API is not as expected.''
      | Some rows \<Rightarrow>
          if truthy rows then Inr (s\<lparr>targets := rows\<rparr>)
          else Inl ''Data structure from API is not as expected.'')"
proof -
  from assms(3) have "read_data e result = Inr (get_prop result ''data'')"
    by (cases result) (simp_all add: read_data_def)
  with assms(1,2) show ?thesis
    by (simp add: fetchData_try_def rows_chain_path)
qed

lemma fetchData_try_lacks:
  assumes "ok resp" and "body resp = Json result" and "result \<noteq> JNull"
    and "lacks_rows_path result"
  shows "fetchData_try e (Resolved resp) s = Inl ''Data structure from API is not as expected.''"
  using assms(4) fetchData_try_Json [OF assms(1-3), of e s]
  by (simp add: lacks_rows_path_def)

lemma fetchData_Inl:
  "fetchData_try e outcome (s\<lparr>isLoading := True, error := None\<rparr>) = Inl m \<Longrightarrow>
     fetchData e outcome s = s\<lparr>isLoading := False, error := Some m\<rparr>"
  by (simp add: fetchData_def Let_def)

lemma App_error:
  "m \<noteq> [] \<Longrightarrow> App e (s\<lparr>isLoading := False, error := Some m\<rparr>)
     = Some (ErrorView (''Error fetching data: '' @ m))"
  by (simp add: App_def)

lemma fetchData_failure_message:
  assumes "null_read_message e \<noteq> []"
    and "\<not> ok resp \<or> (\<exists>m. body resp = BadJson m \<and> m \<noteq> [])
         \<or> (\<exists>result. body resp = Json result \<and> lacks_rows_path result)"
  shows "\<exists>m. m \<noteq> [] \<and> fetchData_try e (Resolved resp) s = Inl m"
proof (cases "ok resp")
  case False
  then show ?thesis by (simp add: fetchData_try_not_ok)
next
  case True
  with assms(2) consider
      (bad) m where "body resp = BadJson m" "m \<noteq> []"
    | (lacks) result where "body resp = Json result" "lacks_rows_path result"
    by blast
  then show ?thesis
  proof cases
    case bad
    with True show ?thesis by (simp add: fetchData_try_BadJson)
  next
    case lacks
    show ?thesis
    proof (cases "result = JNull")
      case True
      with lacks \<open>ok resp\<close> assms(1) show ?thesis by (simp add: fetchData_try_null)
    next
      case False
      with lacks \<open>ok resp\<close> show ?thesis by (simp add: fetchData_try_lacks)
    qed
  qed
qed

text \<open>
  Claim C3. When the response has a status outside 200 to 299, or its body does not parse,
  or the parsed body lacks the path to the rows, \<open>fetchData\<close> leaves the state with the
  rows it had, not loading, and a non-empty error message, and the application renders
  the error view with that message: nothing but the message tells the three failures
  apart. For the status 500 the state after the initial fetch has no rows and the view is
  the error view, which shows no row of data. (The messages that the engine supplies, for
  a body that does not parse and for reading a property of \<open>null\<close>, are taken to be
  non-empty.)
\<close>

theorem fetchData_failure:
  assumes "null_read_message e \<noteq> []"
    and "\<not> ok resp \<or> (\<exists>m. body resp = BadJson m \<and> m \<noteq> [])
         \<or> (\<exists>result. body resp = Json result \<and> lacks_rows_path result)"
  shows "(\<exists>m. m \<noteq> []
           \<and> fetchData e (Resolved resp) s = s\<lparr>isLoading := False, error := Some m\<rparr>
           \<and> App e (fetchData e (Resolved resp) s) = Some (ErrorView (''Error fetching data: '' @ m)))
       \<and> targets (fetchData e (Resolved resp) s) = targets s
       \<and> (status resp = 500 \<longrightarrow>
            fetchData e (Resolved resp) App_initial
              = \<lparr>targets = JRows [], isLoading = False, error = Some ''Network response was not ok''\<rparr>
          \<and> App e (fetchData e (Resolved resp) App_initial)
              = Some (ErrorView ''Error fetching data: Network response was not ok'')
          \<and> data_rows (ErrorView ''Error fetching data: Network response was not ok'') = [])"
proof -
  from fetchData_failure_message [OF assms]
  obtain m where m: "m \<noteq> []"
    and t: "fetchData_try e (Resolved resp) (s\<lparr>isLoading := True, error := None\<rparr>) = Inl m"
    by blast
  from t have f: "fetchData e (Resolved resp) s = s\<lparr>isLoading := False, error := Some m\<rparr>"
    by (rule fetchData_Inl)
  from m have a: "App e (fetchData e (Resolved resp) s) = Some (ErrorView (''Error fetching data: '' @ m))"
    unfolding f by (rule App_error)
  have five: "fetchData e (Resolved resp) App_initial
              = \<lparr>targets = JRows [], isLoading = False, error = Some ''Network response was not ok''\<rparr>
          \<and> App e (fetchData e (Resolved resp) App_initial)
              = Some (ErrorView ''Error fetching data: Network response was not ok'')
          \<and> data_rows (ErrorView ''Error fetching data: Network response was not ok'') = []"
    if "status resp = 500"
  proof -
    from that have "\<not> ok resp" by (simp add: ok_def)
    then have "fetchData e (Resolved resp) App_initial
        = App_initial\<lparr>isLoading := False, error := Some ''Network response was not ok''\<rparr>"
      by (intro fetchData_Inl fetchData_try_not_ok)
    then show ?thesis by (simp add: App_initial_def App_def)
  qed
  from m f a five show ?thesis by auto
qed

theorem fetchData_failure_witness:
  "null_read_message example_engine \<noteq> []
   \<and> \<not> ok \<lparr>status = 500, body = Json (JObj [])\<rparr>
   \<and> lacks_rows_path (JObj [(''data'', JObj [(''disease'', JNull)])])
   \<and> App example_engine (fetchData example_engine
         (Resolved \<lparr>status = 500, body = Json (JObj [])\<rparr>) App_initial)
       = Some (ErrorView ''Error fetching data: Network response was not ok'')
   \<and> targets (fetchData example_engine
         (Resolved \<lparr>status = 200, body = Json (JObj [(''data'', JObj [(''disease'', JNull)])])\<rparr>)
         App_initial) = JRows []"
proof -
  have e: "null_read_message example_engine \<noteq> []" by (simp add: example_engine_def)
  have n: "\<not> ok \<lparr>status = 500, body = Json (JObj [])\<rparr>" by (simp add: ok_def)
  have l: "lacks_rows_path (JObj [(''data'', JObj [(''disease'', JNull)])])"
    by (simp add: lacks_rows_path_def)
  have h1: "\<not> ok \<lparr>status = 500, body = Json (JObj [])\<rparr>
      \<or> (\<exists>m. body \<lparr>status = 500, body = Json (JObj [])\<rparr> = BadJson m \<and> m \<noteq> [])
      \<or> (\<exists>result. body \<lparr>status = 500, body = Json (JObj [])\<rparr> = Json result \<and> lacks_rows_path result)"
    using n by simp
  have h2: "\<not> ok \<lparr>status = 200, body = Json (JObj [(''data'', JObj [(''disease'', JNull)])])\<rparr>
      \<or> (\<exists>m. body \<lparr>status = 200, body = Json (JObj [(''data'', JObj [(''disease'', JNull)])])\<rparr> = BadJson m \<and> m \<noteq> [])
      \<or> (\<exists>result. body \<lparr>status = 200, body = Json (JObj [(''data'', JObj [(''disease'', JNull)])])\<rparr> = Json result \<and> lacks_rows_path result)"
    using l by simp
  have a: "App example_engine (fetchData example_engine
         (Resolved \<lparr>status = 500, body = Json (JObj [])\<rparr>) App_initial)
       = Some (ErrorView ''Error fetching data: Network response was not ok'')"
  proof -
    have st: "status \<lparr>status = 500, body = Json (JObj [])\<rparr> = 500" by simp
    from fetchData_failure [OF e h1, of App_initial, THEN conjunct2, THEN conjunct2,
        THEN mp, OF st, THEN conjunct2, THEN conjunct1]
    show ?thesis .
  qed
  have b: "targets (fetchData example_engine
         (Resolved \<lparr>status = 200, body = Json (JObj [(''data'', JObj [(''disease'', JNull)])])\<rparr>)
         App_initial) = JRows []"
    using fetchData_failure [OF e h2, of App_initial, THEN conjunct2, THEN conjunct1]
    by (simp add: App_initial_def)
  from e n l a b show ?thesis by (intro conjI)
qed

text \<open>
  Claim C10 says that a parsed response without the path to the rows always leaves the
  message \<open>Data structure from API is not as expected.\<close> in the state. The body \<open>null\<close> parses
  and has no such path, but \<open>result.data\<close> is read without \<open>?.\<close> and throws on it: the message
  stored is the engine's message for that \<open>TypeError\<close>.
\<close>

theorem fetchData_null_body:
  "lacks_rows_path JNull
   \<and> fetchData e (Resolved \<lparr>status = 200, body = Json JNull\<rparr>) App_initial
       = \<lparr>targets = JRows [], isLoading = False, error = Some (null_read_message e)\<rparr>
   \<and> error (fetchData example_engine (Resolved \<lparr>status = 200, body = Json JNull\<rparr>) App_initial)
       = Some ''Cannot read properties of null (reading 'data')''
   \<and> error (fetchData example_engine (Resolved \<lparr>status = 200, body = Json JNull\<rparr>) App_initial)
       \<noteq> Some ''Data structure from API is not as expected.''"
proof -
  have "ok \<lparr>status = 200, body = Json JNull\<rparr>" by (simp add: ok_def)
  then have "fetchData e (Resolved \<lparr>status = 200, body = Json JNull\<rparr>) App_initial
      = App_initial\<lparr>isLoading := False, error := Some (null_read_message e)\<rparr>" for e
    by (intro fetchData_Inl fetchData_try_null) simp_all
  then show ?thesis
    by (simp add: App_initial_def lacks_rows_path_def example_engine_def)
qed

section \<open>Properties of the table\<close>

lemma fetchData_ready:
  "fetchData e (Resolved \<lparr>status = 200, body = Json (JObj [(''data'', JObj [(''disease'',
       JObj [(''associatedTargets'', JObj [(''rows'', JRows rows)])])])])\<rparr>) App_initial
     = \<lparr>targets = JRows rows, isLoading = False, error = None\<rparr>"
  by (simp add: fetchData_def fetchData_try_def ok_def read_data_def get_prop_def
      optional_chain_def App_initial_def Let_def)

text \<open>
  Claim C7. A fetch that succeeds with the rows \<open>rows\<close> leaves the ready state holding them.
  In the ready state with no rows the table body is exactly one placeholder row and no row
  of data; with a non-empty list of rows it is one row of data for each association, in
  the order received, and no placeholder.
\<close>

theorem App_table_rows:
  "fetchData e (Resolved \<lparr>status = 200, body = Json (JObj [(''data'', JObj [(''disease'',
       JObj [(''associatedTargets'', JObj [(''rows'', JRows rows)])])])])\<rparr>) App_initial
     = \<lparr>targets = JRows rows, isLoading = False, error = None\<rparr>
   \<and> App e \<lparr>targets = JRows [], isLoading = False, error = None\<rparr>
       = Some (TableView [PlaceholderRow])
   \<and> data_rows (TableView [PlaceholderRow]) = []
   \<and> placeholder_rows (TableView [PlaceholderRow]) = 1
   \<and> (rows \<noteq> [] \<longrightarrow>
        App e \<lparr>targets = JRows rows, isLoading = False, error = None\<rparr>
          = Some (TableView (map (\<lambda>row. DataRow (target_id (target row)) row) rows))
      \<and> data_rows (TableView (map (\<lambda>row. DataRow (target_id (target row)) row) rows)) = rows
      \<and> placeholder_rows (TableView (map (\<lambda>row. DataRow (target_id (target row)) row) rows)) = 0)"
proof -
  have d: "data_rows (TableView (map (\<lambda>row. DataRow (target_id (target row)) row) rows)) = rows"
    by (induction rows) simp_all
  have p: "placeholder_rows (TableView (map (\<lambda>row. DataRow (target_id (target row)) row) rows)) = 0"
    by (induction rows) simp_all
  have a: "App e \<lparr>targets = JRows rows, isLoading = False, error = None\<rparr>
          = Some (TableView (map (\<lambda>row. DataRow (target_id (target row)) row) rows))"
    if "rows \<noteq> []"
    using that by (simp add: App_def TableBody_def)
  have z: "App e \<lparr>targets = JRows [], isLoading = False, error = None\<rparr>
       = Some (TableView [PlaceholderRow])"
    by (simp add: App_def TableBody_def)
  from fetchData_ready d p a z show ?thesis by simp
qed

theorem App_table_rows_witness:
  "[example_row] \<noteq> []
   \<and> App example_engine \<lparr>targets = JRows [example_row], isLoading = False, error = None\<rparr>
       = Some (TableView [DataRow ''ENSG00000146648'' example_row])
   \<and> data_rows (TableView [DataRow ''ENSG00000146648'' example_row]) = [example_row]"
proof -
  have n: "[example_row] \<noteq> []" by simp
  have k: "target_id (target example_row) = ''ENSG00000146648''" by (simp add: example_row_def)
  from App_table_rows [of example_engine "[example_row]"] n k show ?thesis by simp
qed

end
